theory Spec2Isabelle
  imports Main "HOL-Library.Word" "HOL-Library.Multiset"
begin

unbundle bit_operations_syntax

section \<open>Data model\<close>

text \<open>
  The command-line tool of \<^verbatim>\<open>cmd/celestia/main.go\<close> is glue around the consensus
  library, the square library and the erasure-coding library. Byte slices are lists of
  8-bit words. A Go function returning \<^verbatim>\<open>(value, error)\<close> returns a sum here, the
  error on the left. Errors that come out of a library call are wrapped in \<open>ErrLib\<close>;
  the one error that \<^verbatim>\<open>extendShares\<close> builds itself with \<^verbatim>\<open>fmt.Errorf\<close> and the
  part set's \<^verbatim>\<open>ErrPartSetUnexpectedIndex\<close> have constructors of their own.
\<close>

type_synonym bytes = "8 word list"

datatype 'e error =
    ErrNotPowerOfTwo int
  | ErrPartSetUnexpectedIndex
  | ErrLib 'e

text \<open>\<^verbatim>\<open>types.Data\<close>: only the transactions are read by this program.\<close>

record Data =
  Txs :: "bytes list"

text \<open>
  \<^verbatim>\<open>rsmt2d.ExtendedDataSquare\<close>: the square is kept as a list of rows, each a list of
  shares; \<open>width\<close> is its side length.
\<close>

record ExtendedDataSquare =
  squareRow :: "bytes list list"
  width :: nat

text \<open>
  The calls into \<^verbatim>\<open>celestia-app\<close>, \<^verbatim>\<open>go-square\<close>, \<^verbatim>\<open>rsmt2d\<close> and
  \<^verbatim>\<open>celestia-node/share\<close> whose code is not part of this repository are the fields
  of a record that every function below takes: what is proved holds for each
  implementation of them. \<open>EmptyEDS\<close> is a pointer, so it may be \<open>None\<close> (nil).
  \<open>ComputeExtendedDataSquare\<close> receives the shares, the square size handed to
  \<^verbatim>\<open>wrapper.NewConstructor\<close> and the tree options.
\<close>

record ('e, 'sq, 'opt, 'dah) da_lib =
  IsEmptyBlockRef :: "Data \<Rightarrow> 64 word \<Rightarrow> bool"
  EmptyEDS :: "ExtendedDataSquare option"
  SquareSizeUpperBound :: "64 word \<Rightarrow> int"
  SubtreeRootThreshold :: "64 word \<Rightarrow> int"
  Construct :: "bytes list \<Rightarrow> int \<Rightarrow> int \<Rightarrow> 'e + 'sq"
  ToBytes :: "'sq \<Rightarrow> bytes list"
  Size :: "int \<Rightarrow> int"
  ComputeExtendedDataSquare :: "bytes list \<Rightarrow> 64 word \<Rightarrow> 'opt list \<Rightarrow> 'e + ExtendedDataSquare"
  MinDataAvailabilityHeader :: "'dah"
  NewDataAvailabilityHeader :: "ExtendedDataSquare \<Rightarrow> 'e + 'dah"

section \<open>The block stream\<close>

text \<open>
  A Go call that can also panic returns a \<open>ret\<close>: a value, an error, or the panic.
  Where the Go result is a pointer that the code may return as nil together with a
  nil error, the value is an option and \<open>Ret None\<close> is \<^verbatim>\<open>(nil, nil)\<close>.
\<close>

datatype ('e, 'a) ret = Ret 'a | Err 'e | Panic

text \<open>\<^verbatim>\<open>tmproto.Part\<close> and \<^verbatim>\<open>types.Part\<close>: the declared index and the payload.\<close>

record Part =
  Index :: "32 word"
  Bytes :: bytes

text \<open>
  One message of the \<^verbatim>\<open>BlockByHeight\<close> stream. \<open>BlockPart\<close> is a pointer and may be
  nil; the commit and the validator set are protobuf payloads still to be decoded.
\<close>

record ('cp, 'vp) BlockByHeightResponse =
  BlockPart :: "Part option"
  Commit :: 'cp
  ValidatorSet :: 'vp
  IsLast :: bool

text \<open>
  The stream as the client sees it: the messages still to be delivered, and the error
  that \<^verbatim>\<open>Recv\<close> returns once they are used up (\<^verbatim>\<open>io.EOF\<close> when the server closed
  the stream, a transport error otherwise). \<open>Recv\<close> returns the next message and the
  stream without it. The messages are a finite list: the stream of one block ends. On
  a stream that never ended and never marked a fragment last, the loop of
  \<^verbatim>\<open>receiveBlockByHeight\<close> would not return.
\<close>

record ('e, 'cp, 'vp) stream =
  pending :: "('cp, 'vp) BlockByHeightResponse list"
  closed :: 'e

definition Recv ::
  "('e, 'cp, 'vp) stream \<Rightarrow> ('e + ('cp, 'vp) BlockByHeightResponse) \<times> ('e, 'cp, 'vp) stream" where
  "Recv st = (case pending st of
                [] \<Rightarrow> (Inl (closed st), st)
              | resp # rest \<Rightarrow> (Inr resp, st\<lparr>pending := rest\<rparr>))"

record 'h Header =
  Version_App :: "64 word"
  header_fields :: 'h

record 'h Block =
  Header :: "'h Header"
  Data :: Data

record ('h, 'c, 'v) SignedBlock =
  sb_Header :: "'h Header"
  sb_Commit :: 'c
  sb_Data :: Data
  sb_ValidatorSet :: 'v

text \<open>The decoders of the consensus library and of protobuf, taken as they come.\<close>

record ('e, 'cp, 'c, 'vp, 'v, 'pb, 'h) codec_lib =
  CommitFromProto :: "'cp \<Rightarrow> 'e + 'c"
  ValidatorSetFromProto :: "'vp \<Rightarrow> 'e + 'v"
  Unmarshal :: "bytes \<Rightarrow> 'e + 'pb"
  BlockFromProto :: "'pb \<Rightarrow> 'e + 'h Block"

subsection \<open>The part set\<close>

text \<open>
  \<^verbatim>\<open>types.PartSet\<close> is the consensus library's and not part of this repository.
  It is modelled as the library documents it: \<^verbatim>\<open>NewPartSetFromHeader\<close> allocates
  as many empty slots as the header's total says; \<^verbatim>\<open>AddPartWithoutProof\<close> stores a part in the slot of its
  declared index, refuses an index that is not below the total with
  \<^verbatim>\<open>ErrPartSetUnexpectedIndex\<close> and answers \<^verbatim>\<open>(false, nil)\<close> when the slot is
  taken; \<^verbatim>\<open>GetReader\<close> panics on a set that is not complete and reads the slots in
  slot order otherwise.
\<close>

record PartSet =
  total :: "32 word"
  parts :: "Part option list"
  countParts :: "32 word"

definition NewPartSetFromHeader :: "32 word \<Rightarrow> PartSet" where
  "NewPartSetFromHeader headerTotal =
     \<lparr>total = headerTotal, parts = replicate (unat headerTotal) None, countParts = 0\<rparr>"

definition AddPartWithoutProof ::
  "PartSet \<Rightarrow> Part \<Rightarrow> (bool \<times> 'e error option) \<times> PartSet" where
  "AddPartWithoutProof ps part =
     (if total ps \<le> Index part then ((False, Some ErrPartSetUnexpectedIndex), ps)
      else if parts ps ! unat (Index part) \<noteq> None then ((False, None), ps)
      else ((True, None),
            ps\<lparr>parts := (parts ps)[unat (Index part) := Some part],
               countParts := countParts ps + 1\<rparr>))"

definition IsComplete :: "PartSet \<Rightarrow> bool" where
  "IsComplete ps = (countParts ps = total ps)"

definition slotBytes :: "Part option \<Rightarrow> bytes" where
  "slotBytes slot = (case slot of None \<Rightarrow> [] | Some part \<Rightarrow> Bytes part)"

definition GetReader :: "PartSet \<Rightarrow> ('e error, bytes) ret" where
  "GetReader ps = (if \<not> IsComplete ps then Panic else Ret (concat (map slotBytes (parts ps))))"

subsection \<open>Reassembly\<close>

text \<open>
  The loop of \<^verbatim>\<open>partsToBlock\<close> (lines 131-139): a nil part panics on
  \<^verbatim>\<open>part.Index\<close>; an error of the part set is returned; a refusal without an error
  returns \<^verbatim>\<open>(nil, err)\<close> with a nil \<^verbatim>\<open>err\<close>, which is \<open>Ret None\<close>.
\<close>

fun addParts :: "PartSet \<Rightarrow> Part option list \<Rightarrow> ('e error, PartSet option) ret" where
  "addParts partSet [] = Ret (Some partSet)"
| "addParts partSet (None # rest) = Panic"
| "addParts partSet (Some part # rest) =
     (case AddPartWithoutProof partSet \<lparr>Index = Index part, Bytes = Bytes part\<rparr> of
        ((ok, Some err), partSet') \<Rightarrow> Err err
      | ((False, None), partSet') \<Rightarrow> Ret None
      | ((True, None), partSet') \<Rightarrow> addParts partSet' rest)"

text \<open>
  Lines 128-144 of \<^verbatim>\<open>partsToBlock\<close>: the buffer \<^verbatim>\<open>bz\<close> that is handed to
  \<^verbatim>\<open>proto.Unmarshal\<close>. The total is \<^verbatim>\<open>uint32(len(parts))\<close>.
\<close>

definition partsBuffer :: "Part option list \<Rightarrow> ('e error, bytes option) ret" where
  "partsBuffer ps =
     (case addParts (NewPartSetFromHeader (of_nat (length ps))) ps of
        Panic \<Rightarrow> Panic
      | Err err \<Rightarrow> Err err
      | Ret None \<Rightarrow> Ret None
      | Ret (Some partSet) \<Rightarrow>
          (case GetReader partSet of
             Panic \<Rightarrow> Panic
           | Err err \<Rightarrow> Err err
           | Ret bz \<Rightarrow> Ret (Some bz)))"

definition partsToBlock ::
  "('e, 'cp, 'c, 'vp, 'v, 'pb, 'h) codec_lib \<Rightarrow> Part option list
    \<Rightarrow> ('e error, 'h Block option) ret" where
  "partsToBlock lib ps =
     (case partsBuffer ps of
        Panic \<Rightarrow> Panic
      | Err err \<Rightarrow> Err err
      | Ret None \<Rightarrow> Ret None
      | Ret (Some bz) \<Rightarrow>
          (case Unmarshal lib bz of
             Inl err \<Rightarrow> Err (ErrLib err)
           | Inr pbb \<Rightarrow>
               (case BlockFromProto lib pbb of
                  Inl err \<Rightarrow> Err (ErrLib err)
                | Inr block \<Rightarrow> Ret (Some block))))"

text \<open>
  The loop of \<^verbatim>\<open>receiveBlockByHeight\<close> (lines 104-112): it reads until a message
  is marked last and stops at the first error of \<^verbatim>\<open>Recv\<close>.
\<close>

function receiveRest ::
  "bool \<Rightarrow> Part option list \<Rightarrow> ('e, 'cp, 'vp) stream
    \<Rightarrow> ('e + Part option list) \<times> ('e, 'cp, 'vp) stream" where
  "receiveRest isLast ps st =
     (if isLast then (Inr ps, st)
      else (case Recv st of
              (Inl err, st') \<Rightarrow> (Inl err, st')
            | (Inr resp, st') \<Rightarrow> receiveRest (IsLast resp) (ps @ [BlockPart resp]) st'))"
  by pat_completeness auto
termination
  by (relation "measure (\<lambda>(isLast, ps, st). length (pending st))")
     (auto simp: Recv_def split: list.splits)

declare receiveRest.simps [simp del]

text \<open>
  \<^verbatim>\<open>receiveBlockByHeight\<close> (lines 82-123), with the stream that is left. A nil block
  without an error from \<^verbatim>\<open>partsToBlock\<close> panics on \<^verbatim>\<open>&block.Header\<close>.
\<close>

definition receiveBlockByHeight ::
  "('e, 'cp, 'c, 'vp, 'v, 'pb, 'h) codec_lib \<Rightarrow> ('e, 'cp, 'vp) stream
    \<Rightarrow> ('e error, ('h, 'c, 'v) SignedBlock) ret \<times> ('e, 'cp, 'vp) stream" where
  "receiveBlockByHeight lib streamer =
     (case Recv streamer of
        (Inl err, st1) \<Rightarrow> (Err (ErrLib err), st1)
      | (Inr firstPart, st1) \<Rightarrow>
          (case CommitFromProto lib (Commit firstPart) of
             Inl err \<Rightarrow> (Err (ErrLib err), st1)
           | Inr commit \<Rightarrow>
               (case ValidatorSetFromProto lib (ValidatorSet firstPart) of
                  Inl err \<Rightarrow> (Err (ErrLib err), st1)
                | Inr validatorSet \<Rightarrow>
                    (case receiveRest (IsLast firstPart) [BlockPart firstPart] st1 of
                       (Inl err, st2) \<Rightarrow> (Err (ErrLib err), st2)
                     | (Inr ps, st2) \<Rightarrow>
                         (case partsToBlock lib ps of
                            Panic \<Rightarrow> (Panic, st2)
                          | Err err \<Rightarrow> (Err err, st2)
                          | Ret None \<Rightarrow> (Panic, st2)
                          | Ret (Some block) \<Rightarrow>
                              (Ret \<lparr>sb_Header = Header block, sb_Commit = commit,
                                    sb_Data = Data block, sb_ValidatorSet = validatorSet\<rparr>,
                               st2))))))"

section \<open>Extending the shares\<close>

text \<open>
  \<^verbatim>\<open>libsquare.IsPowerOfTwo\<close> of go-square is
  \<^verbatim>\<open>v&(v-1) == 0 && v != 0\<close>; it is applied to \<^verbatim>\<open>len(s)\<close>, a Go \<^verbatim>\<open>int\<close>.
\<close>

definition IsPowerOfTwo :: "int \<Rightarrow> bool" where
  "IsPowerOfTwo v = (v AND (v - 1) = 0 \<and> v \<noteq> 0)"

text \<open>\<^verbatim>\<open>extendShares\<close>, lines 176-188 of \<^verbatim>\<open>cmd/celestia/main.go\<close>.\<close>

definition extendShares ::
  "('e, 'sq, 'opt, 'dah) da_lib \<Rightarrow> bytes list \<Rightarrow> 'opt list
    \<Rightarrow> 'e error + ExtendedDataSquare option" where
  "extendShares lib s options =
     (if \<not> IsPowerOfTwo (int (length s))
      then Inl (ErrNotPowerOfTwo (int (length s)))
      else (let squareSize = Size lib (int (length s))
            in case ComputeExtendedDataSquare lib s (word_of_int squareSize) options of
                 Inl err \<Rightarrow> Inl (ErrLib err)
               | Inr eds \<Rightarrow> Inr (Some eds)))"

text \<open>
  \<^verbatim>\<open>extendBlock\<close>, lines 159-174. For an empty block it returns the pointer that
  \<^verbatim>\<open>share.EmptyEDS()\<close> returns.
\<close>

definition extendBlock ::
  "('e, 'sq, 'opt, 'dah) da_lib \<Rightarrow> Data \<Rightarrow> 64 word \<Rightarrow> 'opt list
    \<Rightarrow> 'e error + ExtendedDataSquare option" where
  "extendBlock lib data appVersion options =
     (if IsEmptyBlockRef lib data appVersion then Inr (EmptyEDS lib)
      else (case Construct lib (Txs data) (SquareSizeUpperBound lib appVersion)
                   (SubtreeRootThreshold lib appVersion) of
              Inl err \<Rightarrow> Inl (ErrLib err)
            | Inr square \<Rightarrow> extendShares lib (ToBytes lib square) options))"

record ('h, 'c, 'v, 'dah) ExtendedHeader =
  eh_Header :: "'h Header"
  eh_Commit :: 'c
  eh_ValidatorSet :: 'v
  DAH :: 'dah

text \<open>\<^verbatim>\<open>makeExtendedHeader\<close>, lines 191-218: the switch is on the square being nil.\<close>

definition makeExtendedHeader ::
  "('e, 'sq, 'opt, 'dah) da_lib \<Rightarrow> 'h Header \<Rightarrow> 'c \<Rightarrow> 'v \<Rightarrow> ExtendedDataSquare option
    \<Rightarrow> 'e error + ('h, 'c, 'v, 'dah) ExtendedHeader" where
  "makeExtendedHeader lib h comm vals eds =
     (case eds of
        None \<Rightarrow>
          Inr \<lparr>eh_Header = h, eh_Commit = comm, eh_ValidatorSet = vals,
               DAH = MinDataAvailabilityHeader lib\<rparr>
      | Some square \<Rightarrow>
          (case NewDataAvailabilityHeader lib square of
             Inl err \<Rightarrow> Inl (ErrLib err)
           | Inr dah \<Rightarrow>
               Inr \<lparr>eh_Header = h, eh_Commit = comm, eh_ValidatorSet = vals, DAH = dah\<rparr>))"

text \<open>
  \<^verbatim>\<open>GetCell\<close> of \<^verbatim>\<open>rsmt2d\<close> is not part of this repository. Its result is a byte
  slice and nothing else; it indexes the rows of the square with the two coordinates
  it is given, and an index expression out of range is a run-time panic in Go.
\<close>

datatype 'a result = Returns 'a | Panics

definition GetCell :: "ExtendedDataSquare \<Rightarrow> nat \<Rightarrow> nat \<Rightarrow> bytes result" where
  "GetCell eds x y =
     (if x < length (squareRow eds)
      then (if y < length (squareRow eds ! x) then Returns (squareRow eds ! x ! y) else Panics)
      else Panics)"

text \<open>The conversion \<^verbatim>\<open>uint(r)\<close> of a Go \<^verbatim>\<open>int\<close>: 64 bits, negative values wrap.\<close>

definition uintOf :: "int \<Rightarrow> nat" where
  "uintOf r = nat (r mod 2 ^ 64)"

section \<open>The erasure coder\<close>

text \<open>
  Modelled from the spec: the erasure coder (\<^verbatim>\<open>rsmt2d.ComputeExtendedDataSquare\<close> with
  the codec of \<^verbatim>\<open>appconsts.DefaultCodec\<close>) is not part of the sources. Section 4.3 of
  the specification: for each of the \<open>k\<close> original rows, \<open>k\<close> parity shares are appended
  to the right; for each of the \<open>2k\<close> columns of that result, \<open>k\<close> further parity shares
  are appended below. The Reed-Solomon encoder itself, from \<open>k\<close> shares to their parity
  shares, is the parameter \<open>encode\<close>. The original square is the flat list of its
  \<open>k * k\<close> shares, row after row.
\<close>

definition originalRow :: "nat \<Rightarrow> bytes list \<Rightarrow> nat \<Rightarrow> bytes list" where
  "originalRow k s r = take k (drop (r * k) s)"

definition extendRows :: "(bytes list \<Rightarrow> bytes list) \<Rightarrow> nat \<Rightarrow> bytes list \<Rightarrow> bytes list list" where
  "extendRows encode k s = map (\<lambda>r. originalRow k s r @ encode (originalRow k s r)) [0..<k]"

definition column :: "bytes list list \<Rightarrow> nat \<Rightarrow> bytes list" where
  "column rows c = map (\<lambda>row. row ! c) rows"

definition extendColumns :: "(bytes list \<Rightarrow> bytes list) \<Rightarrow> nat \<Rightarrow> bytes list list \<Rightarrow> bytes list list" where
  "extendColumns encode k upper = map (\<lambda>i. map (\<lambda>c. encode (column upper c) ! i) [0..<2 * k]) [0..<k]"

definition extendSquare :: "(bytes list \<Rightarrow> bytes list) \<Rightarrow> nat \<Rightarrow> bytes list \<Rightarrow> ExtendedDataSquare" where
  "extendSquare encode k s =
     \<lparr>squareRow = extendRows encode k s @ extendColumns encode k (extendRows encode k s),
      width = 2 * k\<rparr>"

section \<open>The command line\<close>

text \<open>The node: dialling, parsing a height and opening the stream of a block.\<close>

record ('e, 'conn, 'cp, 'vp) node_lib =
  NewClient :: "string \<Rightarrow> 'e + 'conn"
  Atoi :: "string \<Rightarrow> 'e + int"
  BlockByHeight :: "'conn \<Rightarrow> int \<Rightarrow> 'e + ('e, 'cp, 'vp) stream"

record 'conn CoreAccessor =
  client :: 'conn

definition NewCoreAccessor ::
  "('e, 'conn, 'cp, 'vp) node_lib \<Rightarrow> string \<Rightarrow> 'e error + 'conn CoreAccessor" where
  "NewCoreAccessor node ip =
     (case NewClient node ip of
        Inl err \<Rightarrow> Inl (ErrLib err)
      | Inr conn \<Rightarrow> Inr \<lparr>client = conn\<rparr>)"

definition getSignedBlock ::
  "('e, 'conn, 'cp, 'vp) node_lib \<Rightarrow> ('e, 'cp, 'c, 'vp, 'v, 'pb, 'h) codec_lib
    \<Rightarrow> 'conn CoreAccessor \<Rightarrow> string \<Rightarrow> ('e error, ('h, 'c, 'v) SignedBlock) ret" where
  "getSignedBlock node codec c h =
     (case Atoi node h of
        Inl err \<Rightarrow> Err (ErrLib err)
      | Inr height \<Rightarrow>
          (case BlockByHeight node (client c) height of
             Inl err \<Rightarrow> Err (ErrLib err)
           | Inr streamer \<Rightarrow> fst (receiveBlockByHeight codec streamer)))"

text \<open>
  What the process writes to standard output, one item for each \<^verbatim>\<open>fmt.Println\<close>, and
  how it ends: with an exit status, or with the run-time panic of an index expression
  or a nil dereference.
\<close>

datatype ('e, 'h, 'c, 'v, 'dah) printed =
    PrintString string
  | PrintError "'e error"
  | PrintBlock "('h, 'c, 'v) SignedBlock"
  | PrintHeader "('h, 'c, 'v, 'dah) ExtendedHeader"
  | PrintCell bytes

datatype 'p outcome = Exit nat "'p list" | Crash "'p list"

text \<open>The cases of the switch in \<^verbatim>\<open>main\<close> of \<^verbatim>\<open>cmd/celestia/main.go\<close>, lines 235-292.\<close>

definition cmdEds ::
  "('e, 'conn, 'cp, 'vp) node_lib \<Rightarrow> ('e, 'cp, 'c, 'vp, 'v, 'pb, 'h) codec_lib
    \<Rightarrow> ('e, 'sq, 'opt, 'dah) da_lib \<Rightarrow> 'conn CoreAccessor \<Rightarrow> string list
    \<Rightarrow> ('e, 'h, 'c, 'v, 'dah) printed outcome" where
  "cmdEds node codec da coreAccessor args =
     (if length args \<le> 2 then Crash [PrintString ''eds'']
      else (case getSignedBlock node codec coreAccessor (args ! 2) of
              Panic \<Rightarrow> Crash [PrintString ''eds'']
            | Err err \<Rightarrow> Exit 1 [PrintString ''eds'', PrintError err]
            | Ret block \<Rightarrow>
                (case extendBlock da (sb_Data block) (Version_App (sb_Header block)) [] of
                   Inl err \<Rightarrow> Exit 1 [PrintString ''eds'', PrintError err]
                 | Inr eds \<Rightarrow>
                     (case makeExtendedHeader da (sb_Header block) (sb_Commit block)
                             (sb_ValidatorSet block) eds of
                        Inl err \<Rightarrow> Exit 1 [PrintString ''eds'', PrintError err]
                      | Inr eh \<Rightarrow> Exit 0 [PrintString ''eds'', PrintHeader eh]))))"

definition cmdShare ::
  "('e, 'conn, 'cp, 'vp) node_lib \<Rightarrow> ('e, 'cp, 'c, 'vp, 'v, 'pb, 'h) codec_lib
    \<Rightarrow> ('e, 'sq, 'opt, 'dah) da_lib \<Rightarrow> 'conn CoreAccessor \<Rightarrow> string list
    \<Rightarrow> ('e, 'h, 'c, 'v, 'dah) printed outcome" where
  "cmdShare node codec da coreAccessor args =
     (if length args \<le> 2 then Crash [PrintString ''share'']
      else (case getSignedBlock node codec coreAccessor (args ! 2) of
              Panic \<Rightarrow> Crash [PrintString ''share'']
            | Err err \<Rightarrow> Exit 1 [PrintString ''share'', PrintError err]
            | Ret block \<Rightarrow>
                (case extendBlock da (sb_Data block) (Version_App (sb_Header block)) [] of
                   Inl err \<Rightarrow> Exit 1 [PrintString ''share'', PrintError err]
                 | Inr eds \<Rightarrow>
                     (if length args \<le> 3 then Crash [PrintString ''share'']
                      else (case Atoi node (args ! 3) of
                              Inl err \<Rightarrow> Exit 1 [PrintString ''share'', PrintError (ErrLib err)]
                            | Inr r \<Rightarrow>
                                (if length args \<le> 4 then Crash [PrintString ''share'']
                                 else (case Atoi node (args ! 4) of
                                         Inl err \<Rightarrow>
                                           Exit 1 [PrintString ''share'', PrintError (ErrLib err)]
                                       | Inr c \<Rightarrow>
                                           (case eds of
                                              None \<Rightarrow> Crash [PrintString ''share'']
                                            | Some square \<Rightarrow>
                                                (case GetCell square (uintOf r) (uintOf c) of
                                                   Returns cell \<Rightarrow>
                                                     Exit 0 [PrintString ''share'', PrintCell cell]
                                                 | Panics \<Rightarrow> Crash [PrintString ''share''])))))))))"

definition cmdBlock ::
  "('e, 'conn, 'cp, 'vp) node_lib \<Rightarrow> ('e, 'cp, 'c, 'vp, 'v, 'pb, 'h) codec_lib
    \<Rightarrow> 'conn CoreAccessor \<Rightarrow> string \<Rightarrow> string list
    \<Rightarrow> ('e, 'h, 'c, 'v, 'dah) printed outcome" where
  "cmdBlock node codec coreAccessor name args =
     (if length args \<le> 2 then Crash [PrintString name]
      else (case getSignedBlock node codec coreAccessor (args ! 2) of
              Panic \<Rightarrow> Crash [PrintString name]
            | Err err \<Rightarrow> Exit 1 [PrintString name, PrintError err]
            | Ret block \<Rightarrow> Exit 0 [PrintString name, PrintBlock block]))"

text \<open>
  \<^verbatim>\<open>main\<close> of \<^verbatim>\<open>cmd/celestia/main.go\<close>, lines 220-297; \<open>args\<close> is
  \<^verbatim>\<open>os.Args[1:]\<close>. After the dial the switch reads \<^verbatim>\<open>args[1]\<close>.
\<close>

definition main ::
  "('e, 'conn, 'cp, 'vp) node_lib \<Rightarrow> ('e, 'cp, 'c, 'vp, 'v, 'pb, 'h) codec_lib
    \<Rightarrow> ('e, 'sq, 'opt, 'dah) da_lib \<Rightarrow> string list
    \<Rightarrow> ('e, 'h, 'c, 'v, 'dah) printed outcome" where
  "main node codec da args =
     (if length args = 0 then Exit 0 []
      else (case NewCoreAccessor node (args ! 0) of
              Inl err \<Rightarrow> Exit 1 [PrintError err]
            | Inr coreAccessor \<Rightarrow>
                (if length args \<le> 1 then Crash []
                 else if args ! 1 = ''eds'' then cmdEds node codec da coreAccessor args
                 else if args ! 1 = ''share'' then cmdShare node codec da coreAccessor args
                 else if args ! 1 = ''blob'' then Exit 0 [PrintString ''blob'']
                 else if args ! 1 = ''block'' then cmdBlock node codec coreAccessor ''block'' args
                 else Exit 0 [])))"

text \<open>
  \<^verbatim>\<open>main\<close> of the second program (\<^verbatim>\<open>src/unnamed/part_000\<close>, lines 137-177): its
  \<^verbatim>\<open>share\<close> and \<^verbatim>\<open>block\<close> commands both print the block. It builds no
  availability header, so the header type of what it prints is left trivial.
\<close>

definition main_part_000 ::
  "('e, 'conn, 'cp, 'vp) node_lib \<Rightarrow> ('e, 'cp, 'c, 'vp, 'v, 'pb, 'h) codec_lib
    \<Rightarrow> string list \<Rightarrow> ('e, 'h, 'c, 'v, unit) printed outcome" where
  "main_part_000 node codec args =
     (if length args = 0 then Exit 0 []
      else (case NewCoreAccessor node (args ! 0) of
              Inl err \<Rightarrow> Exit 1 [PrintError err]
            | Inr coreAccessor \<Rightarrow>
                (if length args \<le> 1 then Crash []
                 else if args ! 1 = ''share'' then cmdBlock node codec coreAccessor ''share'' args
                 else if args ! 1 = ''blob'' then Exit 0 [PrintString ''blob'']
                 else if args ! 1 = ''block'' then cmdBlock node codec coreAccessor ''block'' args
                 else Exit 0 [])))"

section \<open>Sample inputs\<close>

text \<open>
  A decoder set for the worked examples: a commit or validator-set payload is a flag
  that says whether it decodes, a protobuf block is its own bytes, and the empty buffer
  does not unmarshal.
\<close>

definition sampleCodec :: "(string, bool, unit, bool, unit, bytes, unit) codec_lib" where
  "sampleCodec =
     \<lparr>CommitFromProto = (\<lambda>ok. if ok then Inr () else Inl ''nil Commit''),
      ValidatorSetFromProto = (\<lambda>ok. if ok then Inr () else Inl ''nil validator set''),
      Unmarshal = (\<lambda>bz. if bz = [] then Inl ''unexpected EOF'' else Inr bz),
      BlockFromProto =
        (\<lambda>pb. Inr \<lparr>Header = \<lparr>Version_App = 3, header_fields = ()\<rparr>,
                      Data = \<lparr>Txs = [pb]\<rparr>\<rparr>)\<rparr>"

definition sampleMessage :: "32 word \<Rightarrow> bytes \<Rightarrow> bool \<Rightarrow> bool \<Rightarrow> (bool, bool) BlockByHeightResponse" where
  "sampleMessage i bz decodes isLast =
     \<lparr>BlockPart = Some \<lparr>Index = i, Bytes = bz\<rparr>, Commit = decodes,
      ValidatorSet = True, IsLast = isLast\<rparr>"

text \<open>Two of three fragments, none marked last, then the end of the stream.\<close>

definition truncatedStream :: "(string, bool, bool) stream" where
  "truncatedStream =
     \<lparr>pending = [sampleMessage 0 [1, 2] True False, sampleMessage 1 [3] True False],
      closed = ''EOF''\<rparr>"

text \<open>A first fragment whose commit does not decode, followed by a second fragment.\<close>

definition malformedStream :: "(string, bool, bool) stream" where
  "malformedStream =
     \<lparr>pending = [sampleMessage 0 [1, 2] False False, sampleMessage 1 [3] True True],
      closed = ''EOF''\<rparr>"

text \<open>Storing a part in the slot of its declared index, as \<open>AddPartWithoutProof\<close> does.\<close>

definition store :: "Part \<Rightarrow> Part option list \<Rightarrow> Part option list" where
  "store x sl = sl[unat (Index x) := Some x]"

text \<open>Two fragments delivered against their declared order.\<close>

definition permutedParts :: "Part list" where
  "permutedParts = [\<lparr>Index = 1, Bytes = [0x42]\<rparr>, \<lparr>Index = 0, Bytes = [0x41]\<rparr>]"

text \<open>
  A node that serves one block, of one fragment, at height 1, and a square library whose
  coder is the one above with a parity that repeats the data.
\<close>

definition completeStream :: "(string, bool, bool) stream" where
  "completeStream = \<lparr>pending = [sampleMessage 0 [1] True True], closed = ''EOF''\<rparr>"

definition sampleNode :: "(string, string, bool, bool) node_lib" where
  "sampleNode =
     \<lparr>NewClient = (\<lambda>ip. if ip = [] then Inl ''empty target'' else Inr ip),
      Atoi = (\<lambda>s. if s = ''0'' then Inr 0 else if s = ''1'' then Inr 1
                   else if s = ''2'' then Inr 2 else Inl ''invalid syntax''),
      BlockByHeight = (\<lambda>conn height. if height = 1 then Inr completeStream
                                        else Inl ''height not available'')\<rparr>"

definition sampleDA :: "(string, bytes list, unit, nat) da_lib" where
  "sampleDA =
     \<lparr>IsEmptyBlockRef = (\<lambda>data appVersion. Txs data = []),
      EmptyEDS = Some (extendSquare (\<lambda>row. row) 1 [[0]]),
      SquareSizeUpperBound = (\<lambda>appVersion. 128),
      SubtreeRootThreshold = (\<lambda>appVersion. 64),
      Construct = (\<lambda>txs bound threshold. Inr txs),
      ToBytes = (\<lambda>square. square),
      Size = (\<lambda>n. if n \<le> 1 then 1 else 2),
      ComputeExtendedDataSquare =
        (\<lambda>s squareSize options. Inr (extendSquare (\<lambda>row. row) (unat squareSize) s)),
      MinDataAvailabilityHeader = 0,
      NewDataAvailabilityHeader = (\<lambda>eds. Inr (width eds))\<rparr>"

section \<open>Powers of two\<close>

lemma and_pred_even: "(2 * m) AND (2 * m - 1) = 2 * (m AND (m - 1))" for m :: int
proof -
  have "(2 * m - 1) div 2 = m - 1" by simp
  then show ?thesis
    by (subst and_int_rec) simp
qed

lemma and_pred_odd: "(2 * m + 1) AND (2 * m + 1 - 1) = 2 * m" for m :: int
  by (subst and_int_rec) simp

lemma pow2_and_pred: "0 < n \<Longrightarrow> (n AND (n - 1) = 0) = (\<exists>k. n = 2 ^ k)" for n :: int
proof (induction "nat n" arbitrary: n rule: less_induct)
  case less
  show ?case
  proof (cases "even n")
    case True
    then obtain m where m: "n = 2 * m" by (auto elim: evenE)
    with less.prems have mpos: "0 < m" by simp
    then have "nat m < nat n" using m by simp
    then have IH: "(m AND (m - 1) = 0) = (\<exists>k. m = 2 ^ k)" using less.hyps mpos by blast
    have "(\<exists>k. n = 2 ^ k) = (\<exists>k. m = 2 ^ k)"
    proof
      assume "\<exists>k. n = 2 ^ k"
      then obtain k where k: "n = 2 ^ k" by blast
      with m mpos have "k \<noteq> 0" by (cases k) auto
      then obtain j where "k = Suc j" by (cases k) auto
      with k m have "m = 2 ^ j" by simp
      then show "\<exists>k. m = 2 ^ k" by blast
    next
      assume "\<exists>k. m = 2 ^ k"
      then obtain k where "m = 2 ^ k" by blast
      with m have "n = 2 ^ Suc k" by simp
      then show "\<exists>k. n = 2 ^ k" by blast
    qed
    then show ?thesis using IH and_pred_even [of m] m by simp
  next
    case False
    then obtain m where m: "n = 2 * m + 1" by (auto elim: oddE)
    have "(\<exists>k. n = 2 ^ k) = (m = 0)"
    proof
      assume "\<exists>k. n = 2 ^ k"
      then obtain k where k: "n = 2 ^ k" by blast
      with False have "k = 0" by (cases k) auto
      with k m show "m = 0" by simp
    next
      assume "m = 0"
      with m have "n = 2 ^ 0" by simp
      then show "\<exists>k. n = 2 ^ k" by blast
    qed
    then show ?thesis using and_pred_odd [of m] m by simp
  qed
qed

lemma IsPowerOfTwo_iff: "0 \<le> v \<Longrightarrow> IsPowerOfTwo v = (\<exists>k. v = 2 ^ k)"
  using pow2_and_pred [of v] by (cases "v = 0") (auto simp: IsPowerOfTwo_def)

lemma IsPowerOfTwo_length: "IsPowerOfTwo (int (length s)) = (\<exists>k. length s = 2 ^ k)"
proof -
  have "(\<exists>k. int (length s) = 2 ^ k) = (\<exists>k. length s = 2 ^ k)"
    by (metis of_nat_eq_iff of_nat_numeral of_nat_power)
  then show ?thesis
    by (simp add: IsPowerOfTwo_iff)
qed

section \<open>Reading the stream\<close>

lemma receiveRest_no_last:
  "\<forall>m \<in> set (pending st). \<not> IsLast m \<Longrightarrow>
     receiveRest False ps st = (Inl (closed st), st\<lparr>pending := []\<rparr>)"
proof (induction "pending st" arbitrary: st ps)
  case Nil
  then show ?case
    by (subst receiveRest.simps) (simp add: Recv_def)
next
  case (Cons m ms)
  from Cons.hyps(2) have p: "pending st = m # ms" by simp
  with Cons.prems have nl: "\<not> IsLast m" by simp
  have "receiveRest False ps st = receiveRest False (ps @ [BlockPart m]) (st\<lparr>pending := ms\<rparr>)"
    using p nl by (subst receiveRest.simps) (simp add: Recv_def)
  also have "\<dots> = (Inl (closed (st\<lparr>pending := ms\<rparr>)), st\<lparr>pending := ms\<rparr>\<lparr>pending := []\<rparr>)"
    using Cons.prems p by (intro Cons.hyps(1)) auto
  finally show ?case by simp
qed

section \<open>The part set orders by declared index\<close>

lemma Part_eta [simp]: "\<lparr>Index = Index p, Bytes = Bytes p\<rparr> = p" for p :: Part
  by (cases p) simp

lemma length_store [simp]: "length (store x sl) = length sl"
  by (simp add: store_def)

lemma nth_store:
  "store x sl ! i = (if i = unat (Index x) \<and> i < length sl then Some x else sl ! i)"
  by (cases "i = unat (Index x)") (simp_all add: store_def list_update_beyond)

lemma length_fold_store [simp]: "length (fold store xs sl) = length sl"
  by (induction xs arbitrary: sl) simp_all

lemma fold_store_other:
  "i \<notin> (\<lambda>x. unat (Index x)) ` set xs \<Longrightarrow> fold store xs sl ! i = sl ! i"
  by (induction xs arbitrary: sl) (auto simp: nth_store)

lemma fold_store_nth:
  "distinct (map Index xs) \<Longrightarrow> x \<in> set xs \<Longrightarrow> unat (Index x) < length sl \<Longrightarrow>
     fold store xs sl ! unat (Index x) = Some x"
proof (induction xs arbitrary: sl)
  case Nil
  then show ?case by simp
next
  case (Cons y ys)
  show ?case
  proof (cases "x = y")
    case True
    have "unat (Index y) \<notin> (\<lambda>x. unat (Index x)) ` set ys"
      using Cons.prems(1) by (auto simp: image_iff word_unat_eq_iff)
    then have "fold store ys (store y sl) ! unat (Index y) = store y sl ! unat (Index y)"
      by (rule fold_store_other)
    then show ?thesis using True Cons.prems(3) by (simp add: nth_store)
  next
    case False
    with Cons.prems have "x \<in> set ys" by simp
    then show ?thesis using Cons by simp
  qed
qed

lemma addParts_Some:
  "length (parts ps) = unat (total ps) \<Longrightarrow>
   (addParts ps (map Some xs) = (Ret (Some ps') :: ('e error, PartSet option) ret)) =
     (distinct (map Index xs)
      \<and> (\<forall>x \<in> set xs. Index x < total ps \<and> parts ps ! unat (Index x) = None)
      \<and> ps' = ps\<lparr>parts := fold store xs (parts ps), countParts := countParts ps + of_nat (length xs)\<rparr>)"
proof (induction xs arbitrary: ps)
  case Nil
  then show ?case by auto
next
  case (Cons x xs)
  let ?i = "unat (Index x)"
  show ?case
  proof (cases "total ps \<le> Index x")
    case True
    then show ?thesis by (auto simp: AddPartWithoutProof_def)
  next
    case lt: False
    then have ilt: "?i < length (parts ps)"
      using Cons.prems by (simp add: word_less_nat_alt not_le)
    show ?thesis
    proof (cases "parts ps ! ?i = None")
      case False
      then show ?thesis using lt by (auto simp: AddPartWithoutProof_def)
    next
      case True
      let ?ps1 = "ps\<lparr>parts := (parts ps)[?i := Some x], countParts := countParts ps + 1\<rparr>"
      have step: "addParts ps (map Some (x # xs)) = (addParts ?ps1 (map Some xs) :: ('e error, PartSet option) ret)"
        using lt True by (simp add: AddPartWithoutProof_def)
      have len1: "length (parts ?ps1) = unat (total ?ps1)" using Cons.prems by simp
      have nth1: "\<And>y. (store x (parts ps) ! unat (Index y) = None) =
                   (Index y \<noteq> Index x \<and> parts ps ! unat (Index y) = None)"
        using ilt by (auto simp: nth_store word_unat_eq_iff)
      have eq: "(parts ps)[?i := Some x] = store x (parts ps)" by (simp add: store_def)
      have "(addParts ps (map Some (x # xs)) = (Ret (Some ps') :: ('e error, PartSet option) ret)) =
        (distinct (map Index xs)
         \<and> (\<forall>y \<in> set xs. Index y < total ps \<and> Index y \<noteq> Index x \<and> parts ps ! unat (Index y) = None)
         \<and> ps' = ps\<lparr>parts := fold store xs (store x (parts ps)),
                      countParts := countParts ps + 1 + of_nat (length xs)\<rparr>)"
        unfolding step Cons.IH [OF len1] by (simp add: nth1 eq)
      also have "\<dots> = (distinct (map Index (x # xs))
         \<and> (\<forall>y \<in> set (x # xs). Index y < total ps \<and> parts ps ! unat (Index y) = None)
         \<and> ps' = ps\<lparr>parts := fold store (x # xs) (parts ps),
                      countParts := countParts ps + of_nat (length (x # xs))\<rparr>)"
        using lt True by (auto simp: not_le add.assoc image_iff)
      finally show ?thesis .
    qed
  qed
qed

lemma sorted_distinct_below:
  "sorted ys \<Longrightarrow> distinct ys \<Longrightarrow> \<forall>y \<in> set ys. y < n \<Longrightarrow> length ys = n \<Longrightarrow> ys = [0..<n]"
  for ys :: "nat list"
proof -
  assume s: "sorted ys" and d: "distinct ys" and b: "\<forall>y \<in> set ys. y < n" and l: "length ys = n"
  have "set ys \<subseteq> {0..<n}" using b by auto
  moreover have "card (set ys) = card {0..<n}" using d l by (simp add: distinct_card)
  ultimately have "set ys = {0..<n}" by (intro card_subset_eq) auto
  then have "set ys = set [0..<n]" by simp
  with s d show ?thesis by (intro sorted_distinct_set_unique) auto
qed

lemma sort_key_Index_nth:
  assumes d: "distinct (map Index xs)" and b: "\<forall>x \<in> set xs. unat (Index x) < length xs"
  shows "map (\<lambda>x. unat (Index x)) (sort_key Index xs) = [0..<length xs]"
proof -
  let ?zs = "sort_key Index xs"
  have "sorted (map Index ?zs)" by simp
  then have "sorted (map unat (map Index ?zs))"
    by (simp add: sorted_map) (simp add: sorted_wrt_iff_nth_less word_le_nat_alt)
  then have s: "sorted (map (\<lambda>x. unat (Index x)) ?zs)" by (simp add: comp_def)
  have "mset (map Index ?zs) = mset (map Index xs)" by simp
  then have "distinct (map Index ?zs)" using d by (metis mset_eq_imp_distinct_iff)
  then have "distinct (map unat (map Index ?zs))"
    by (simp add: distinct_map inj_on_def word_unat_eq_iff del: map_map)
  then have dd: "distinct (map (\<lambda>x. unat (Index x)) ?zs)" by (simp add: comp_def)
  have "\<forall>y \<in> set (map (\<lambda>x. unat (Index x)) ?zs). y < length xs" using b by simp
  then show ?thesis using s dd by (intro sorted_distinct_below) simp_all
qed

lemma slots_sorted:
  assumes d: "distinct (map Index xs)" and b: "\<forall>x \<in> set xs. unat (Index x) < length xs"
  shows "fold store xs (replicate (length xs) None) = map Some (sort_key Index xs)"
proof (rule nth_equalityI)
  show "length (fold store xs (replicate (length xs) None)) = length (map Some (sort_key Index xs))"
    by simp
next
  fix i assume "i < length (fold store xs (replicate (length xs) None))"
  then have i: "i < length xs" by simp
  let ?z = "sort_key Index xs ! i"
  have "map (\<lambda>x. unat (Index x)) (sort_key Index xs) ! i = [0..<length xs] ! i"
    using sort_key_Index_nth [OF d b] by simp
  then have zi: "unat (Index ?z) = i" using i by simp
  have "?z \<in> set (sort_key Index xs)" using i by (intro nth_mem) simp
  then have zin: "?z \<in> set xs" by simp
  have "fold store xs (replicate (length xs) None) ! unat (Index ?z) = Some ?z"
    using d zin zi i by (intro fold_store_nth) simp_all
  then show "fold store xs (replicate (length xs) None) ! i = map Some (sort_key Index xs) ! i"
    using zi i by simp
qed

lemma partsBuffer_Some_iff:
  assumes "length xs < 2 ^ 32"
  shows "(partsBuffer (map Some xs) = (Ret (Some bz) :: ('e error, bytes option) ret)) =
           (distinct (map Index xs) \<and> (\<forall>x \<in> set xs. unat (Index x) < length xs)
            \<and> bz = concat (map Bytes (sort_key Index xs)))"
proof -
  let ?n = "of_nat (length xs) :: 32 word"
  let ?ps0 = "NewPartSetFromHeader ?n"
  have un: "unat ?n = length xs" using assms by (simp add: unat_of_nat)
  have len0: "length (parts ?ps0) = unat (total ?ps0)" by (simp add: NewPartSetFromHeader_def)
  have lt: "\<And>x. (Index x < ?n) = (unat (Index x) < length xs)"
    using un by (simp add: word_less_nat_alt)
  have pre: "(\<exists>ps'. addParts ?ps0 (map Some xs) = (Ret (Some ps') :: ('e error, PartSet option) ret)) =
               (distinct (map Index xs) \<and> (\<forall>x \<in> set xs. unat (Index x) < length xs))"
    unfolding addParts_Some [OF len0]
    using un by (auto simp: NewPartSetFromHeader_def lt)
  show ?thesis
  proof (cases "distinct (map Index xs) \<and> (\<forall>x \<in> set xs. unat (Index x) < length xs)")
    case False
    with pre have "\<And>ps'. addParts ?ps0 (map Some xs) \<noteq> (Ret (Some ps') :: ('e error, PartSet option) ret)"
      by blast
    then show ?thesis using False
      by (auto simp: partsBuffer_def split: ret.splits option.splits)
  next
    case True
    then have d: "distinct (map Index xs)" and b: "\<forall>x \<in> set xs. unat (Index x) < length xs"
      by simp_all
    from pre True obtain ps' where
      a: "addParts ?ps0 (map Some xs) = (Ret (Some ps') :: ('e error, PartSet option) ret)" by blast
    then have ps': "ps' = ?ps0\<lparr>parts := fold store xs (parts ?ps0),
                              countParts := countParts ?ps0 + of_nat (length xs)\<rparr>"
      unfolding addParts_Some [OF len0] by simp
    have sl: "parts ps' = map Some (sort_key Index xs)"
      using ps' slots_sorted [OF d b] un by (simp add: NewPartSetFromHeader_def)
    have c: "IsComplete ps'" using ps' by (simp add: IsComplete_def NewPartSetFromHeader_def)
    have "slotBytes \<circ> Some = Bytes"
      by (rule ext) (simp add: slotBytes_def)
    then have "GetReader ps' = (Ret (concat (map Bytes (sort_key Index xs))) :: ('e error, bytes) ret)"
      using c sl by (simp add: GetReader_def)
    then show ?thesis using a True by (auto simp: partsBuffer_def)
  qed
qed

section \<open>The original quadrant\<close>

lemma length_originalRow: "length s = k * k \<Longrightarrow> r < k \<Longrightarrow> length (originalRow k s r) = k"
proof -
  assume l: "length s = k * k" and r: "r < k"
  then have "Suc r \<le> k" by simp
  then have "Suc r * k \<le> k * k" by (rule mult_le_mono1)
  then have "k \<le> k * k - r * k" by simp
  then show ?thesis using l by (simp add: originalRow_def)
qed

lemma nth_originalRow: "length s = k * k \<Longrightarrow> r < k \<Longrightarrow> c < k \<Longrightarrow> originalRow k s r ! c = s ! (r * k + c)"
proof -
  assume l: "length s = k * k" and r: "r < k" and c: "c < k"
  then have "Suc r \<le> k" by simp
  then have "Suc r * k \<le> k * k" by (rule mult_le_mono1)
  then have "r * k + c < length s" using l c by simp
  then show ?thesis using c by (simp add: originalRow_def)
qed

section \<open>A block from the sample node\<close>

lemma sample_getSignedBlock:
  "getSignedBlock sampleNode sampleCodec \<lparr>client = ''node:9090''\<rparr> ''1'' =
     Ret \<lparr>sb_Header = \<lparr>Version_App = 3, header_fields = ()\<rparr>, sb_Commit = (),
          sb_Data = \<lparr>Txs = [[1]]\<rparr>, sb_ValidatorSet = ()\<rparr>"
proof -
  have w: "\<not> (1 :: 32 word) \<le> 0" by simp
  show ?thesis
  by (simp add: getSignedBlock_def sampleNode_def sampleCodec_def completeStream_def
        receiveBlockByHeight_def Recv_def sampleMessage_def receiveRest.simps [of True]
        partsToBlock_def partsBuffer_def NewPartSetFromHeader_def AddPartWithoutProof_def
        GetReader_def IsComplete_def slotBytes_def w)
qed

section \<open>Claims\<close>

text \<open>
  C5. \<^verbatim>\<open>extendShares\<close> returns its own error, the one that reports a share count
  that is not a power of two, exactly when the number of shares is not a power of two;
  when the number of shares is a power of two it hands the shares to
  \<^verbatim>\<open>rsmt2d.ComputeExtendedDataSquare\<close> and returns what that call returns.
\<close>

theorem extendShares_power_of_two:
  "((\<exists>n. extendShares lib s options = Inl (ErrNotPowerOfTwo n)) = (\<not> (\<exists>k. length s = 2 ^ k)))
   \<and> extendShares lib s options =
       (if \<exists>k. length s = 2 ^ k
        then (case ComputeExtendedDataSquare lib s
                     (word_of_int (Size lib (int (length s)))) options of
                Inl err \<Rightarrow> Inl (ErrLib err)
              | Inr eds \<Rightarrow> Inr (Some eds))
        else Inl (ErrNotPowerOfTwo (int (length s))))"
  by (auto simp: extendShares_def IsPowerOfTwo_length Let_def split: sum.splits)

text \<open>
  C4. When no fragment of the stream is marked last before the stream ends, be it by
  \<^verbatim>\<open>io.EOF\<close> or by a transport error, \<^verbatim>\<open>receiveBlockByHeight\<close> returns an error:
  no signed block, and in particular no partly assembled one, is returned.
\<close>

theorem truncated_stream_is_error:
  assumes "\<forall>m \<in> set (pending st). \<not> IsLast m"
  shows "\<exists>e. fst (receiveBlockByHeight lib st) = Err (ErrLib e)"
proof (cases "pending st")
  case Nil
  then show ?thesis by (simp add: receiveBlockByHeight_def Recv_def)
next
  case (Cons first rest)
  with assms have nl: "\<not> IsLast first"
    and r: "\<forall>m \<in> set (pending (st\<lparr>pending := rest\<rparr>)). \<not> IsLast m"
    by simp_all
  show ?thesis
    using Cons nl receiveRest_no_last [OF r]
    by (simp add: receiveBlockByHeight_def Recv_def split: sum.splits)
qed

theorem truncated_stream_is_error_witness:
  "\<exists>e. fst (receiveBlockByHeight sampleCodec truncatedStream) = Err (ErrLib e)"
proof -
  have h: "\<forall>m \<in> set (pending truncatedStream). \<not> IsLast m"
    by (simp add: truncatedStream_def sampleMessage_def)
  show ?thesis
    by (rule truncated_stream_is_error [OF h])
qed

text \<open>
  C8. When the commit or the validator set of the first fragment does not decode,
  \<^verbatim>\<open>receiveBlockByHeight\<close> returns an error and no signed block, and the stream it
  leaves behind has lost the first fragment only: nothing further was read.
\<close>

theorem malformed_first_fragment:
  assumes "pending st = first # rest"
    and "(\<exists>e. CommitFromProto lib (Commit first) = Inl e)
         \<or> (\<exists>e. ValidatorSetFromProto lib (ValidatorSet first) = Inl e)"
  shows "\<exists>e. receiveBlockByHeight lib st = (Err (ErrLib e), st\<lparr>pending := rest\<rparr>)"
  using assms by (auto simp: receiveBlockByHeight_def Recv_def split: sum.splits)

theorem malformed_first_fragment_witness:
  "\<exists>e. receiveBlockByHeight sampleCodec malformedStream =
         (Err (ErrLib e), malformedStream\<lparr>pending := [sampleMessage 1 [3] True True]\<rparr>)"
proof -
  have p: "pending malformedStream =
             sampleMessage 0 [1, 2] False False # [sampleMessage 1 [3] True True]"
    by (simp add: malformedStream_def)
  have d: "(\<exists>e. CommitFromProto sampleCodec (Commit (sampleMessage 0 [1, 2] False False)) = Inl e)
           \<or> (\<exists>e. ValidatorSetFromProto sampleCodec
                      (ValidatorSet (sampleMessage 0 [1, 2] False False)) = Inl e)"
    by (simp add: sampleCodec_def sampleMessage_def)
  show ?thesis
    by (rule malformed_first_fragment [OF p d])
qed

text \<open>
  C1, as the code has it. \<^verbatim>\<open>partsToBlock\<close> hands every fragment to the part set
  under its declared index, and the buffer it unmarshals is read back from the part
  set. For fewer than \<open>2^32\<close> fragments a buffer is produced exactly when the declared
  indices are distinct and below the number of fragments, and it is the concatenation
  of the payloads in increasing order of declared index. It is the concatenation in
  order of receipt when the fragments arrive in increasing order of declared index.
\<close>

theorem partsToBlock_buffer_in_index_order:
  assumes "length xs < 2 ^ 32"
  shows "((partsBuffer (map Some xs) = (Ret (Some bz) :: ('e error, bytes option) ret)) =
           (distinct (map Index xs) \<and> (\<forall>x \<in> set xs. unat (Index x) < length xs)
            \<and> bz = concat (map Bytes (sort_key Index xs))))
         \<and> (partsBuffer (map Some xs) = (Ret (Some bz) :: ('e error, bytes option) ret)
              \<and> sorted (map Index xs) \<longrightarrow> bz = concat (map Bytes xs))"
  using partsBuffer_Some_iff [OF assms, of bz, where 'e = 'e]
  by (auto simp: sort_key_id_if_sorted)

theorem partsToBlock_buffer_in_index_order_witness:
  "partsBuffer (map Some permutedParts)
     = (Ret (Some (concat (map Bytes (sort_key Index permutedParts))))
        :: ('e error, bytes option) ret)"
proof -
  have h: "length permutedParts < 2 ^ 32"
    by (simp add: permutedParts_def)
  show ?thesis
    using partsToBlock_buffer_in_index_order [OF h, where 'e = 'e]
    by (simp add: permutedParts_def)
qed

text \<open>
  C1, as the claim states it, fails: two fragments delivered with declared indices 1
  and 0 give the buffer in index order, not in order of receipt.
\<close>

theorem receipt_order_counterexample:
  "partsBuffer (map Some permutedParts) = (Ret (Some [0x41, 0x42]) :: ('e error, bytes option) ret)
   \<and> partsBuffer (map Some permutedParts)
       \<noteq> (Ret (Some (concat (map Bytes permutedParts))) :: ('e error, bytes option) ret)"
proof -
  have w: "\<not> (2 :: 32 word) \<le> 1" "\<not> (2 :: 32 word) \<le> 0"
    by (simp_all add: word_le_nat_alt)
  have r: "replicate 2 (None :: Part option) = [None, None]"
    by (simp add: numeral_2_eq_2)
  show ?thesis
    by (simp add: permutedParts_def partsBuffer_def NewPartSetFromHeader_def
          AddPartWithoutProof_def GetReader_def IsComplete_def slotBytes_def w r)
qed

text \<open>
  C2, on the code. For an empty block \<^verbatim>\<open>extendBlock\<close> returns the pointer of
  \<^verbatim>\<open>share.EmptyEDS()\<close>; when that is a square and not nil, \<^verbatim>\<open>makeExtendedHeader\<close>
  does not take its nil case: the availability header is what
  \<^verbatim>\<open>da.NewDataAvailabilityHeader\<close> builds from the square, or that call's error.
\<close>

theorem empty_block_header_built_from_square:
  assumes "IsEmptyBlockRef lib data appVersion" and "EmptyEDS lib = Some square"
  shows "extendBlock lib data appVersion options = Inr (Some square)
         \<and> makeExtendedHeader lib h comm vals (Some square) =
             (case NewDataAvailabilityHeader lib square of
                Inl err \<Rightarrow> Inl (ErrLib err)
              | Inr dah \<Rightarrow>
                  Inr \<lparr>eh_Header = h, eh_Commit = comm, eh_ValidatorSet = vals, DAH = dah\<rparr>)"
  using assms by (simp add: extendBlock_def makeExtendedHeader_def)

theorem empty_block_header_built_from_square_witness:
  "extendBlock sampleDA \<lparr>Txs = []\<rparr> 3 [] = Inr (Some (extendSquare (\<lambda>row. row) 1 [[0]]))
   \<and> makeExtendedHeader sampleDA \<lparr>Version_App = 3, header_fields = ()\<rparr> () ()
        (Some (extendSquare (\<lambda>row. row) 1 [[0]]))
      = Inr \<lparr>eh_Header = \<lparr>Version_App = 3, header_fields = ()\<rparr>, eh_Commit = (),
             eh_ValidatorSet = (), DAH = 2\<rparr>"
proof -
  have a: "IsEmptyBlockRef sampleDA \<lparr>Txs = []\<rparr> 3" by (simp add: sampleDA_def)
  have b: "EmptyEDS sampleDA = Some (extendSquare (\<lambda>row. row) 1 [[0]])" by (simp add: sampleDA_def)
  show ?thesis
    using empty_block_header_built_from_square
            [OF a b, of "[]" "\<lparr>Version_App = 3, header_fields = ()\<rparr>" "()" "()"]
    by (simp add: sampleDA_def extendSquare_def)
qed

text \<open>
  C3, as the code has it. On a square of side \<open>2k\<close>, \<^verbatim>\<open>GetCell\<close> returns the share at
  the given row and column when both are below \<open>2k\<close>, and panics otherwise: it has no
  error result, and \<^verbatim>\<open>main\<close> checks no range before it calls it.
\<close>

theorem GetCell_in_and_out_of_range:
  assumes "length (squareRow eds) = 2 * k"
    and "\<forall>row \<in> set (squareRow eds). length row = 2 * k"
  shows "GetCell eds x y =
           (if x < 2 * k \<and> y < 2 * k then Returns (squareRow eds ! x ! y) else Panics)"
  using assms by (auto simp: GetCell_def)

theorem GetCell_in_and_out_of_range_witness:
  "GetCell (extendSquare (\<lambda>row. row) 1 [[1]]) 1 0 = Returns [1]
   \<and> GetCell (extendSquare (\<lambda>row. row) 1 [[1]]) 0 2 = Panics"
proof -
  have a: "length (squareRow (extendSquare (\<lambda>row. row) 1 [[1]])) = 2 * 1"
    by (simp add: extendSquare_def extendRows_def extendColumns_def)
  have b: "\<forall>row \<in> set (squareRow (extendSquare (\<lambda>row. row) 1 [[1]])). length row = 2 * 1"
    by (simp add: extendSquare_def extendRows_def extendColumns_def originalRow_def)
  show ?thesis
    using GetCell_in_and_out_of_range [OF a b, of 1 0]
          GetCell_in_and_out_of_range [OF a b, of 0 2]
    by (simp add: extendSquare_def extendRows_def extendColumns_def originalRow_def column_def)
qed

text \<open>
  C3, as the claim states it, fails: on the square of side 2 that \<^verbatim>\<open>extendShares\<close>
  returns for one share, row 2 is a panic and not an error value.
\<close>

theorem GetCell_out_of_range_counterexample:
  "extendShares sampleDA [[1]] [] = Inr (Some (extendSquare (\<lambda>row. row) 1 [[1]]))
   \<and> GetCell (extendSquare (\<lambda>row. row) 1 [[1]]) 2 0 = Panics"
  by (simp add: extendShares_def IsPowerOfTwo_def sampleDA_def GetCell_def extendSquare_def
        extendRows_def extendColumns_def)

text \<open>
  C6, against the coder of the specification. The top-left quadrant of the extended
  square is the original square: the cell at row \<open>r\<close> and column \<open>c\<close>, both below \<open>k\<close>,
  is the share at the flat position \<open>r * k + c\<close>.
\<close>

theorem extend_is_systematic:
  assumes "length s = k * k" and "r < k" and "c < k"
  shows "GetCell (extendSquare encode k s) r c = Returns (s ! (r * k + c))"
proof -
  have row: "squareRow (extendSquare encode k s) ! r = originalRow k s r @ encode (originalRow k s r)"
    using assms(2) by (simp add: extendSquare_def extendRows_def nth_append)
  have "r < length (squareRow (extendSquare encode k s))"
    using assms(2) by (simp add: extendSquare_def extendRows_def)
  moreover have "c < length (squareRow (extendSquare encode k s) ! r)"
    using assms by (simp add: row length_originalRow)
  moreover have "squareRow (extendSquare encode k s) ! r ! c = s ! (r * k + c)"
    using assms by (simp add: row nth_append length_originalRow nth_originalRow)
  ultimately show ?thesis by (simp add: GetCell_def)
qed

theorem extend_is_systematic_witness:
  "GetCell (extendSquare (\<lambda>row. row) 2 [[1], [2], [3], [4]]) 1 0 = Returns [3]"
proof -
  have a: "length [[1], [2], [3], [4 :: 8 word]] = 2 * 2" by simp
  have b: "(1 :: nat) < 2" and c: "(0 :: nat) < 2" by simp_all
  show ?thesis
    using extend_is_systematic [OF a b c, of "\<lambda>row. row"] by simp
qed

text \<open>
  C9, as the code has it, for an invocation with at least two arguments. A failed dial
  prints the error and exits with 1. After a successful dial, a command that the
  program does not know exits with 0 and \<^verbatim>\<open>blob\<close> prints its name and exits with 0;
  the second program does not know \<^verbatim>\<open>eds\<close>. The commands that fetch a block print
  their name and then read \<^verbatim>\<open>args[2]\<close>: without a height argument that is a panic;
  with one, an error of \<^verbatim>\<open>getSignedBlock\<close> is printed and the status is 1, and a
  panic inside it is a panic. Then \<^verbatim>\<open>block\<close>, and \<^verbatim>\<open>share\<close> in the second
  program, print the block and exit with 0; in the first program
  \<^verbatim>\<open>eds\<close> and \<^verbatim>\<open>share\<close> print the error of \<^verbatim>\<open>extendBlock\<close> and exit with 1;
  \<^verbatim>\<open>eds\<close> prints the error of \<^verbatim>\<open>makeExtendedHeader\<close> and exits with 1, or prints
  the header and exits with 0. After the extension \<^verbatim>\<open>share\<close> reads \<^verbatim>\<open>args[3]\<close>
  and then \<^verbatim>\<open>args[4]\<close>: a missing one is a panic at that point, one that does not
  parse is printed as an error with status 1; with both parsed, a nil square or a cell
  out of range is a panic, and otherwise the cell is printed and the status is 0.
\<close>

theorem main_exit_status:
  assumes "2 \<le> length args"
  shows
    "(\<forall>err. NewCoreAccessor node (args ! 0) = Inl err \<longrightarrow>
        main node codec da args = Exit 1 [PrintError err]
        \<and> main_part_000 node codec args = Exit 1 [PrintError err])
     \<and> (\<forall>coreAccessor. NewCoreAccessor node (args ! 0) = Inr coreAccessor \<longrightarrow>
        (args ! 1 \<notin> {''eds'', ''share'', ''blob'', ''block''} \<longrightarrow>
           main node codec da args = Exit 0 [])
        \<and> (args ! 1 \<notin> {''share'', ''blob'', ''block''} \<longrightarrow>
             main_part_000 node codec args = Exit 0 [])
        \<and> (args ! 1 = ''blob'' \<longrightarrow>
             main node codec da args = Exit 0 [PrintString ''blob'']
             \<and> main_part_000 node codec args = Exit 0 [PrintString ''blob''])
        \<and> (args ! 1 \<in> {''eds'', ''share'', ''block''} \<and> length args = 2 \<longrightarrow>
             main node codec da args = Crash [PrintString (args ! 1)])
        \<and> (args ! 1 \<in> {''share'', ''block''} \<and> length args = 2 \<longrightarrow>
             main_part_000 node codec args = Crash [PrintString (args ! 1)])
        \<and> (args ! 1 \<in> {''eds'', ''share'', ''block''} \<and> 3 \<le> length args \<longrightarrow>
             (\<forall>err. getSignedBlock node codec coreAccessor (args ! 2) = Err err \<longrightarrow>
                main node codec da args = Exit 1 [PrintString (args ! 1), PrintError err])
             \<and> (getSignedBlock node codec coreAccessor (args ! 2) = Panic \<longrightarrow>
                main node codec da args = Crash [PrintString (args ! 1)]))
        \<and> (args ! 1 \<in> {''share'', ''block''} \<and> 3 \<le> length args \<longrightarrow>
             (\<forall>err. getSignedBlock node codec coreAccessor (args ! 2) = Err err \<longrightarrow>
                main_part_000 node codec args = Exit 1 [PrintString (args ! 1), PrintError err])
             \<and> (getSignedBlock node codec coreAccessor (args ! 2) = Panic \<longrightarrow>
                main_part_000 node codec args = Crash [PrintString (args ! 1)])
             \<and> (\<forall>block. getSignedBlock node codec coreAccessor (args ! 2) = Ret block \<longrightarrow>
                main_part_000 node codec args = Exit 0 [PrintString (args ! 1), PrintBlock block]))
        \<and> (args ! 1 = ''block'' \<and> 3 \<le> length args \<longrightarrow>
             (\<forall>block. getSignedBlock node codec coreAccessor (args ! 2) = Ret block \<longrightarrow>
                main node codec da args = Exit 0 [PrintString ''block'', PrintBlock block]))
        \<and> (args ! 1 \<in> {''eds'', ''share''} \<and> 3 \<le> length args \<longrightarrow>
             (\<forall>block err. getSignedBlock node codec coreAccessor (args ! 2) = Ret block
                \<and> extendBlock da (sb_Data block) (Version_App (sb_Header block)) [] = Inl err \<longrightarrow>
                main node codec da args = Exit 1 [PrintString (args ! 1), PrintError err]))
        \<and> (args ! 1 = ''eds'' \<and> 3 \<le> length args \<longrightarrow>
             (\<forall>block eds. getSignedBlock node codec coreAccessor (args ! 2) = Ret block
                \<and> extendBlock da (sb_Data block) (Version_App (sb_Header block)) [] = Inr eds \<longrightarrow>
                (\<forall>err. makeExtendedHeader da (sb_Header block) (sb_Commit block)
                          (sb_ValidatorSet block) eds = Inl err \<longrightarrow>
                   main node codec da args = Exit 1 [PrintString ''eds'', PrintError err])
                \<and> (\<forall>eh. makeExtendedHeader da (sb_Header block) (sb_Commit block)
                          (sb_ValidatorSet block) eds = Inr eh \<longrightarrow>
                   main node codec da args = Exit 0 [PrintString ''eds'', PrintHeader eh])))
        \<and> (args ! 1 = ''share'' \<and> 3 \<le> length args \<longrightarrow>
             (\<forall>block eds. getSignedBlock node codec coreAccessor (args ! 2) = Ret block
                \<and> extendBlock da (sb_Data block) (Version_App (sb_Header block)) [] = Inr eds \<longrightarrow>
                (length args = 3 \<longrightarrow> main node codec da args = Crash [PrintString ''share''])
                \<and> (\<forall>err. 4 \<le> length args \<and> Atoi node (args ! 3) = Inl err \<longrightarrow>
                   main node codec da args = Exit 1 [PrintString ''share'', PrintError (ErrLib err)])
                \<and> (\<forall>r. length args = 4 \<and> Atoi node (args ! 3) = Inr r \<longrightarrow>
                   main node codec da args = Crash [PrintString ''share''])
                \<and> (\<forall>r err. 5 \<le> length args \<and> Atoi node (args ! 3) = Inr r
                     \<and> Atoi node (args ! 4) = Inl err \<longrightarrow>
                   main node codec da args = Exit 1 [PrintString ''share'', PrintError (ErrLib err)])
                \<and> (\<forall>r c. 5 \<le> length args \<and> Atoi node (args ! 3) = Inr r
                     \<and> Atoi node (args ! 4) = Inr c \<longrightarrow>
                   (eds = None \<longrightarrow> main node codec da args = Crash [PrintString ''share''])
                   \<and> (\<forall>square. eds = Some square
                         \<and> GetCell square (uintOf r) (uintOf c) = Panics \<longrightarrow>
                        main node codec da args = Crash [PrintString ''share''])
                   \<and> (\<forall>square cell. eds = Some square
                         \<and> GetCell square (uintOf r) (uintOf c) = Returns cell \<longrightarrow>
                        main node codec da args =
                          Exit 0 [PrintString ''share'', PrintCell cell])))))"
proof -
  from assms have ne: "args \<noteq> []" "\<not> length args \<le> 1" "length args \<noteq> 0"
    by auto
  show ?thesis
    using ne
    by (simp add: main_def main_part_000_def cmdEds_def cmdShare_def cmdBlock_def)
qed

theorem main_exit_status_witness:
  "main sampleNode sampleCodec sampleDA [''node:9090'', ''block'', ''1''] =
     Exit 0 [PrintString ''block'',
             PrintBlock \<lparr>sb_Header = \<lparr>Version_App = 3, header_fields = ()\<rparr>, sb_Commit = (),
                         sb_Data = \<lparr>Txs = [[1]]\<rparr>, sb_ValidatorSet = ()\<rparr>]
   \<and> main sampleNode sampleCodec sampleDA [''node:9090'', ''status''] = Exit 0 []
   \<and> main sampleNode sampleCodec sampleDA [[], ''block'', ''1''] =
       Exit 1 [PrintError (ErrLib ''empty target'')]
   \<and> main sampleNode sampleCodec sampleDA [''node:9090'', ''share'', ''x''] =
       Exit 1 [PrintString ''share'', PrintError (ErrLib ''invalid syntax'')]
   \<and> main sampleNode sampleCodec sampleDA [''node:9090'', ''share'', ''1''] =
       Crash [PrintString ''share'']
   \<and> main_part_000 sampleNode sampleCodec [''node:9090'', ''eds'', ''1''] = Exit 0 []"
proof -
  have d: "NewCoreAccessor sampleNode ''node:9090'' = Inr \<lparr>client = ''node:9090''\<rparr>"
    by (simp add: NewCoreAccessor_def sampleNode_def)
  have e: "NewCoreAccessor sampleNode [] = Inl (ErrLib ''empty target'')"
    by (simp add: NewCoreAccessor_def sampleNode_def)
  have x: "getSignedBlock sampleNode sampleCodec \<lparr>client = ''node:9090''\<rparr> ''x'' =
             Err (ErrLib ''invalid syntax'')"
    by (simp add: getSignedBlock_def sampleNode_def)
  have b: "extendBlock sampleDA \<lparr>Txs = [[1]]\<rparr> 3 [] =
             Inr (Some (extendSquare (\<lambda>row. row) 1 [[1]]))"
    by (simp add: extendBlock_def extendShares_def IsPowerOfTwo_def sampleDA_def)
  have l3: "2 \<le> length [''node:9090'', ''block'', ''1'']" by simp
  have l2: "2 \<le> length [''node:9090'', ''status'']" by simp
  have l0: "2 \<le> length [[], ''block'', ''1'']" by simp
  have lx: "2 \<le> length [''node:9090'', ''share'', ''x'']" by simp
  have ls: "2 \<le> length [''node:9090'', ''share'', ''1'']" by simp
  have le: "2 \<le> length [''node:9090'', ''eds'', ''1'']" by simp
  show ?thesis
    using main_exit_status [OF l3, of sampleNode sampleCodec sampleDA]
          main_exit_status [OF l2, of sampleNode sampleCodec sampleDA]
          main_exit_status [OF l0, of sampleNode sampleCodec sampleDA]
          main_exit_status [OF lx, of sampleNode sampleCodec sampleDA]
          main_exit_status [OF ls, of sampleNode sampleCodec sampleDA]
          main_exit_status [OF le, of sampleNode sampleCodec sampleDA]
          d e x b sample_getSignedBlock
    by simp
qed

text \<open>
  C9, as the claim states it, fails: two arguments with the command \<^verbatim>\<open>block\<close> and
  no height end in the panic of \<^verbatim>\<open>args[2]\<close>, with neither exit status.
\<close>

theorem missing_height_counterexample:
  "main sampleNode sampleCodec sampleDA [''node:9090'', ''block''] = Crash [PrintString ''block'']"
  by (simp add: main_def cmdBlock_def NewCoreAccessor_def sampleNode_def)

text \<open>
  C10. With exactly one argument, the node address, both programs dial and then read
  \<^verbatim>\<open>args[1]\<close>: when the dial succeeds the process panics, with neither exit status;
  when the dial fails it prints the error and exits with 1.
\<close>

theorem one_argument_panics:
  assumes "length args = 1"
  shows "main node codec da args =
           (case NewCoreAccessor node (args ! 0) of
              Inl err \<Rightarrow> Exit 1 [PrintError err] | Inr coreAccessor \<Rightarrow> Crash [])
         \<and> main_part_000 node codec args =
           (case NewCoreAccessor node (args ! 0) of
              Inl err \<Rightarrow> Exit 1 [PrintError err] | Inr coreAccessor \<Rightarrow> Crash [])"
  using assms by (simp add: main_def main_part_000_def split: sum.splits)

theorem one_argument_panics_witness:
  "main sampleNode sampleCodec sampleDA [''node:9090''] = Crash []"
proof -
  have l: "length [''node:9090''] = 1" by simp
  show ?thesis
    using one_argument_panics [OF l, of sampleNode sampleCodec sampleDA]
    by (simp add: NewCoreAccessor_def sampleNode_def)
qed

end
